theory Spec2Isabelle
  imports Main "HOL-Library.FSet"
begin

section \<open>AsioProcessSupervisor (core/system/PosixProcess.cpp)\<close>

text \<open>
  The supervisor keeps the set \<open>children_\<close> of running child processes behind \<open>mutex_\<close>
  and signals \<open>noChildrenSignal_\<close> when the set is found empty after a child was reaped.

  Every member function of \<open>AsioProcessSupervisor::Impl\<close> is embedded as a function from
  the supervisor's data before the call to an \<open>outcome\<close>: the value returned, the events
  the call performed, in program order, and the supervisor's data after the call. The
  events are the accesses to \<open>mutex_\<close>, \<open>children_\<close> and \<open>noChildrenSignal_\<close> and the calls
  that leave the supervisor (to the child object, to the log, to the caller's callback).

  What the supervisor does not decide is an argument of the model:
  \<^item> the result of \<open>pChild->run(callbacks)\<close> and of \<open>pChild->terminate()\<close>
    (\<open>AsioAsyncChildProcess\<close> lives in PosixChildProcess.cpp);
  \<^item> whether the object behind a \<open>boost::weak_ptr\<close> has been destroyed when
    \<open>lock()\<close> is called;
  \<^item> what the caller's \<open>onExit\<close> does to the supervisor (it may call back into it);
  \<^item> how a wait on the condition variable ends: whether \<open>timed_wait\<close> returned before
    its time was up, and what \<open>children_\<close> holds once the mutex is handed back, which the
    other threads decide.

  An outcome is that of the call by itself, entered with the mutex free: apart from the
  wait on the condition variable, where the call hands the collection to the other
  threads, what they do to \<open>children_\<close> while the call runs is not part of it. For
  \<open>terminateAll\<close>, whose calls of \<open>terminate\<close> provoke the exits that the other threads
  process, \<open>terminateAll_among\<close> adds what they do while its loop runs.
\<close>

subsection \<open>Data\<close>

text \<open>
  A \<open>boost::shared_ptr<AsioAsyncChildProcess>\<close> is the address of the object it owns;
  \<open>std::set\<close> orders and compares shared pointers by that address.
\<close>

type_synonym handle = nat

datatype weak_ptr = weak_ptr handle

text \<open>\<open>pChild.lock()\<close>: the shared pointer, or null once the object has been destroyed.\<close>

fun lock :: "(handle \<Rightarrow> bool) \<Rightarrow> weak_ptr \<Rightarrow> handle option" where
  "lock expired (weak_ptr h) = (if expired h then None else Some h)"

text \<open>
  \<open>core::Error\<close> converts to true in \<open>if (error)\<close> exactly when it is not \<open>Success()\<close>.
\<close>

datatype Error = Success | Failure int

definition is_error :: "Error \<Rightarrow> bool" where
  "is_error error \<longleftrightarrow> error \<noteq> Success"

text \<open>
  \<open>boost::posix_time::time_duration\<close>: a count of ticks or one of the special values.
\<close>

datatype time_duration = not_a_date_time | neg_infin | pos_infin | ticks int

fun is_not_a_date_time :: "time_duration \<Rightarrow> bool" where
  "is_not_a_date_time not_a_date_time = True"
| "is_not_a_date_time _ = False"

text \<open>
  The data of \<open>Impl\<close> that the member functions read and write. \<open>ioService_\<close> is a
  reference handed to each new child; \<open>mutex_\<close> and \<open>noChildrenSignal_\<close> show in the events.
\<close>

record Impl =
  children :: "handle fset"

text \<open>
  A \<open>boost::function<void(int)>\<close> is either the caller's own callable, which may change
  the supervisor by calling back into it, or the object that
  \<open>boost::bind(&Impl::wrapExitCallback, pImpl_.get(), weak_ptr(pChild), _1, callbacks.onExit)\<close>
  builds, which holds the weak pointer and the caller's \<open>onExit\<close>. An empty
  \<open>boost::function\<close> is \<open>None\<close>.
\<close>

datatype exit_function =
    user_function "int \<Rightarrow> Impl \<Rightarrow> Impl"
  | bind_wrapExitCallback weak_ptr "exit_function option"

text \<open>
  Modelled from the spec: \<open>ProcessCallbacks\<close> is declared in a header that is not part of
  the sources at hand (the callback set of section 3: three independent, optional slots).
\<close>

record ProcessCallbacks =
  onStdout :: "(string \<Rightarrow> Impl \<Rightarrow> Impl) option"
  onStderr :: "(string \<Rightarrow> Impl \<Rightarrow> Impl) option"
  onExit :: "exit_function option"

text \<open>
  Modelled from the spec: \<open>LOCK_MUTEX\<close> and \<open>END_LOCK_MUTEX\<close> are macros of core/Thread.hpp,
  which is not part of the sources at hand; the block between them runs with \<open>mutex_\<close>
  held ("under the lock"): \<open>Lock\<close> at its start, \<open>Unlock\<close> at its end. \<open>Wait\<close> and
  \<open>Timed_wait\<close> are the waits on \<open>noChildrenSignal_\<close>, from the release of the mutex to
  the moment it is held again; \<open>Call_onExit\<close> is the call of the caller's own callable,
  until it returns; \<open>Check_empty\<close> carries what \<open>children_.empty()\<close> returned.
\<close>

datatype event =
    Lock
  | Unlock
  | Run handle ProcessCallbacks
  | Insert handle
  | Erase handle
  | Copy "handle fset"
  | Check_empty bool
  | Terminate handle
  | Log_error Error
  | Call_onExit int
  | Wait
  | Timed_wait time_duration
  | Notify_all

record 'a outcome =
  returned :: 'a
  events :: "event list"
  final :: Impl

text \<open>
  How a wait on \<open>noChildrenSignal_\<close> ends: \<open>in_time\<close> is what \<open>timed_wait\<close> returns (false
  when the time is up), \<open>woken\<close> is the supervisor's data when the mutex is held again.
\<close>

record wakeup =
  in_time :: bool
  woken :: Impl

subsection \<open>Impl\<close>

definition runChild ::
  "(handle \<Rightarrow> ProcessCallbacks \<Rightarrow> Error) \<Rightarrow> handle \<Rightarrow> ProcessCallbacks \<Rightarrow> Impl \<Rightarrow> Error outcome"
where
  "runChild run pChild callbacks s =
     (let error = run pChild callbacks in
      if is_error error then
        \<lparr>returned = error, events = [Run pChild callbacks], final = s\<rparr>
      else
        \<lparr>returned = Success,
         events = [Run pChild callbacks, Lock, Insert pChild, Unlock],
         final = s\<lparr>children := finsert pChild (children s)\<rparr>\<rparr>)"

definition hasRunningChildren :: "Impl \<Rightarrow> bool outcome" where
  "hasRunningChildren s =
     \<lparr>returned = (children s \<noteq> {||}),
      events = [Lock, Check_empty (children s = {||}), Unlock],
      final = s\<rparr>"

text \<open>The body of the \<open>BOOST_FOREACH\<close> of \<open>terminateAll\<close>, over the copy in the set's order.\<close>

fun terminate_each :: "(handle \<Rightarrow> Error) \<Rightarrow> handle list \<Rightarrow> event list" where
  "terminate_each terminate [] = []"
| "terminate_each terminate (pChild # rest) =
     (let error = terminate pChild in
      Terminate pChild # (if is_error error then [Log_error error] else [])
        @ terminate_each terminate rest)"

definition terminateAll :: "(handle \<Rightarrow> Error) \<Rightarrow> Impl \<Rightarrow> unit outcome" where
  "terminateAll terminate s =
     (let childCopies = children s in
      \<lparr>returned = (),
       events = [Lock, Copy childCopies, Unlock]
         @ terminate_each terminate (sorted_list_of_fset childCopies),
       final = s\<rparr>)"

text \<open>
  \<open>terminateAll\<close> among the other threads. Its loop runs with the mutex free, so after each
  call of \<open>terminate\<close> a thread of the dispatcher may take the mutex before the loop goes on
  or \<open>terminateAll\<close> returns: \<open>meanwhile pChild\<close> is what the other threads make of the
  collection then (the exit that the call provoked, processed by \<open>wrapExitCallback\<close>; a
  launch; or nothing). The events are those of \<open>terminateAll\<close> itself; \<open>final\<close> is the
  collection as \<open>terminateAll\<close> leaves it behind when it returns.
\<close>

fun terminate_each_among :: "(handle \<Rightarrow> Impl \<Rightarrow> Impl) \<Rightarrow> handle list \<Rightarrow> Impl \<Rightarrow> Impl" where
  "terminate_each_among meanwhile [] s = s"
| "terminate_each_among meanwhile (pChild # rest) s =
     terminate_each_among meanwhile rest (meanwhile pChild s)"

definition terminateAll_among ::
  "(handle \<Rightarrow> Error) \<Rightarrow> (handle \<Rightarrow> Impl \<Rightarrow> Impl) \<Rightarrow> Impl \<Rightarrow> unit outcome"
where
  "terminateAll_among terminate meanwhile s =
     (let childCopies = children s in
      \<lparr>returned = (),
       events = [Lock, Copy childCopies, Unlock]
         @ terminate_each terminate (sorted_list_of_fset childCopies),
       final = terminate_each_among meanwhile (sorted_list_of_fset childCopies) s\<rparr>)"

text \<open>
  \<open>lock\<close> of \<open>wait\<close> is a \<open>boost::unique_lock\<close>: taken at the declaration, released
  inside the wait on the condition variable and taken again before that wait returns,
  released for good when \<open>wait\<close> returns.
\<close>

definition wait :: "time_duration \<Rightarrow> wakeup \<Rightarrow> Impl \<Rightarrow> bool outcome" where
  "wait maxWait w s =
     (if children s = {||} then
        \<lparr>returned = True, events = [Lock, Check_empty True, Unlock], final = s\<rparr>
      else if is_not_a_date_time maxWait then
        \<lparr>returned = (children (woken w) = {||}),
         events = [Lock, Check_empty False, Wait,
                   Check_empty (children (woken w) = {||}), Unlock],
         final = woken w\<rparr>
      else if in_time w then
        \<lparr>returned = (children (woken w) = {||}),
         events = [Lock, Check_empty False, Timed_wait maxWait,
                   Check_empty (children (woken w) = {||}), Unlock],
         final = woken w\<rparr>
      else
        \<lparr>returned = False,
         events = [Lock, Check_empty False, Timed_wait maxWait, Unlock],
         final = woken w\<rparr>)"

text \<open>
  \<open>wrapExitCallback\<close>, and the call \<open>onExit(exitCode)\<close> it makes: of the caller's
  callable, or of a bound \<open>wrapExitCallback\<close>. The parameter \<open>onExit\<close> of the source is
  \<open>onExit'\<close> here, \<open>onExit\<close> being the slot of \<open>ProcessCallbacks\<close>.
\<close>

fun wrapExitCallback ::
  "(handle \<Rightarrow> bool) \<Rightarrow> weak_ptr \<Rightarrow> int \<Rightarrow> exit_function option \<Rightarrow> Impl \<Rightarrow> unit outcome"
and call_onExit ::
  "(handle \<Rightarrow> bool) \<Rightarrow> exit_function \<Rightarrow> int \<Rightarrow> Impl \<Rightarrow> unit outcome"
where
  "wrapExitCallback expired pChild exitCode onExit' s =
     (let child = lock expired pChild;
          erased = (case child of
                      None \<Rightarrow> \<lparr>returned = (), events = [Lock, Unlock], final = s\<rparr>
                    | Some c \<Rightarrow>
                        \<lparr>returned = (), events = [Lock, Erase c, Unlock],
                         final = s\<lparr>children := children s |-| {|c|}\<rparr>\<rparr>);
          called = (case onExit' of
                      None \<Rightarrow> \<lparr>returned = (), events = [], final = final erased\<rparr>
                    | Some f \<Rightarrow> call_onExit expired f exitCode (final erased));
          empty = (children (final called) = {||})
      in \<lparr>returned = (),
          events = events erased @ events called
            @ [Lock, Check_empty empty] @ (if empty then [Notify_all] else []) @ [Unlock],
          final = final called\<rparr>)"
| "call_onExit expired (user_function f) exitCode s =
     \<lparr>returned = (), events = [Call_onExit exitCode], final = f exitCode s\<rparr>"
| "call_onExit expired (bind_wrapExitCallback pChild onExit') exitCode s =
     wrapExitCallback expired pChild exitCode onExit' s"

subsection \<open>AsioProcessSupervisor\<close>

text \<open>
  \<open>pChild\<close> is the object that \<open>new AsioAsyncChildProcess(...)\<close> returns; the program, its
  arguments and the options go to its constructor and are not looked at again.
\<close>

definition runProgram ::
  "(handle \<Rightarrow> ProcessCallbacks \<Rightarrow> Error) \<Rightarrow> handle \<Rightarrow> string \<Rightarrow> string list \<Rightarrow> 'options
     \<Rightarrow> ProcessCallbacks \<Rightarrow> Impl \<Rightarrow> Error outcome"
where
  "runProgram run pChild executable args options callbacks s =
     (let ourCallbacks =
            callbacks\<lparr>onExit := Some (bind_wrapExitCallback (weak_ptr pChild) (onExit callbacks))\<rparr>
      in runChild run pChild ourCallbacks s)"

definition runCommand ::
  "(handle \<Rightarrow> ProcessCallbacks \<Rightarrow> Error) \<Rightarrow> handle \<Rightarrow> string \<Rightarrow> 'options
     \<Rightarrow> ProcessCallbacks \<Rightarrow> Impl \<Rightarrow> Error outcome"
where
  "runCommand run pChild command options callbacks s =
     (let ourCallbacks =
            callbacks\<lparr>onExit := Some (bind_wrapExitCallback (weak_ptr pChild) (onExit callbacks))\<rparr>
      in runChild run pChild ourCallbacks s)"

subsection \<open>Reading a sequence of events\<close>

text \<open>Whether \<open>mutex_\<close> is held once the events have happened, given whether it was before.\<close>

fun held :: "bool \<Rightarrow> event list \<Rightarrow> bool" where
  "held h [] = h"
| "held h (Lock # es) = held True es"
| "held h (Unlock # es) = held False es"
| "held h (e # es) = held h es"

text \<open>
  \<open>when_held want h e es\<close>: each time \<open>e\<close> happens in \<open>es\<close>, the mutex is held (\<open>want\<close>
  true) or free (\<open>want\<close> false); \<open>h\<close> says whether it is held before \<open>es\<close>.
\<close>

fun when_held :: "bool \<Rightarrow> bool \<Rightarrow> event \<Rightarrow> event list \<Rightarrow> bool" where
  "when_held want h e [] = True"
| "when_held want h e (x # xs) =
     ((if x = e then h = want else True) \<and> when_held want (held h [x]) e xs)"

text \<open>
  \<open>under_lock e es\<close>: \<open>e\<close> happens in \<open>es\<close>, and only with the mutex held;
  \<open>outside_lock e es\<close>: \<open>e\<close> happens in \<open>es\<close>, and only with the mutex free. Both read \<open>es\<close>
  from a moment when the mutex is free.
\<close>

definition under_lock :: "event \<Rightarrow> event list \<Rightarrow> bool" where
  "under_lock e es \<longleftrightarrow> e \<in> set es \<and> when_held True False e es"

definition outside_lock :: "event \<Rightarrow> event list \<Rightarrow> bool" where
  "outside_lock e es \<longleftrightarrow> e \<in> set es \<and> when_held False False e es"

text \<open>
  \<open>strictly_before a b es\<close>: \<open>b\<close> does not happen in \<open>es\<close> until \<open>a\<close> has happened.
\<close>

fun strictly_before :: "event \<Rightarrow> event \<Rightarrow> event list \<Rightarrow> bool" where
  "strictly_before a b [] = True"
| "strictly_before a b (x # xs) =
     (if x = a then True else if x = b then False else strictly_before a b xs)"

section \<open>Sequences of events\<close>

lemma held_append: "held h (xs @ ys) = held (held h xs) ys"
  by (induction h xs rule: held.induct) simp_all

lemma held_Cons: "held h (x # xs) = held (held h [x]) xs"
  using held_append [of h "[x]" xs] by simp

lemma when_held_append:
  "when_held want h e (xs @ ys) \<longleftrightarrow>
     when_held want h e xs \<and> when_held want (held h xs) e ys"
proof (induction xs arbitrary: h)
  case Nil
  show ?case by simp
next
  case (Cons x xs)
  then show ?case by (simp add: held_Cons [of h x xs])
qed

text \<open>The two recursive predicates say what their names say, position by position.\<close>

lemma strictly_before_index:
  assumes "a \<noteq> b"
  shows "strictly_before a b es \<longleftrightarrow>
           (\<forall>j < length es. es ! j = b \<longrightarrow> (\<exists>i < j. es ! i = a))"
  using assms by (induction es) (auto simp: All_less_Suc2 Ex_less_Suc2)

lemma when_held_index:
  "when_held want h e es \<longleftrightarrow>
     (\<forall>i < length es. es ! i = e \<longrightarrow> held h (take i es) = want)"
proof (induction es arbitrary: h)
  case Nil
  show ?case by simp
next
  case (Cons x xs)
  have "\<And>i. held h (x # take i xs) = held (held h [x]) (take i xs)"
    by (rule held_Cons)
  with Cons show ?case by (auto simp: All_less_Suc2)
qed

text \<open>The loop of \<open>terminateAll\<close> touches neither the mutex nor the collection.\<close>

lemma set_terminate_each:
  "set (terminate_each terminate xs) =
     Terminate ` set xs \<union> Log_error ` terminate ` {x \<in> set xs. is_error (terminate x)}"
  by (induction xs) (auto simp: Let_def)

lemma held_terminate_each: "held h (terminate_each terminate xs) = h"
  by (induction xs arbitrary: h) (simp_all add: Let_def)

lemma when_held_terminate_each: "when_held h h e (terminate_each terminate xs)"
  by (induction xs) (simp_all add: Let_def)

lemma count_terminate_each:
  "count_list (terminate_each terminate xs) (Terminate h) = count_list xs h"
  by (induction xs) (simp_all add: Let_def)

lemma when_held_absent: "e \<notin> set es \<Longrightarrow> when_held want h e es"
  by (induction es arbitrary: h) auto

lemma count_list_distinct:
  "distinct xs \<Longrightarrow> count_list xs h = (if h \<in> set xs then 1 else 0)"
  by (induction xs) auto

text \<open>A \<open>std::set\<close> is visited in order, each element once.\<close>

lemma count_sorted_list_of_fset:
  "count_list (sorted_list_of_fset S) h = (if h |\<in>| S then 1 else 0)"
proof -
  have "distinct (sorted_list_of_fset S)"
    by (simp add: sorted_list_of_fset.rep_eq)
  then show ?thesis
    by (simp add: count_list_distinct)
qed

section \<open>The member functions, unfolded\<close>

lemma runChild_failure:
  "is_error (run pChild callbacks) \<Longrightarrow>
     runChild run pChild callbacks s =
       \<lparr>returned = run pChild callbacks, events = [Run pChild callbacks], final = s\<rparr>"
  by (simp add: runChild_def)

lemma runChild_success:
  "\<not> is_error (run pChild callbacks) \<Longrightarrow>
     runChild run pChild callbacks s =
       \<lparr>returned = Success,
        events = [Run pChild callbacks, Lock, Insert pChild, Unlock],
        final = s\<lparr>children := finsert pChild (children s)\<rparr>\<rparr>"
  by (simp add: runChild_def)

lemma launch_is_runChild:
  assumes "r = runProgram run pChild executable args options callbacks s
           \<or> r = runCommand run pChild command options' callbacks s"
  shows "r = runChild run pChild
               (callbacks\<lparr>onExit :=
                  Some (bind_wrapExitCallback (weak_ptr pChild) (onExit callbacks))\<rparr>) s"
  using assms by (auto simp: runProgram_def runCommand_def)

lemma terminateAll_eq:
  "terminateAll terminate s =
     \<lparr>returned = (),
      events = [Lock, Copy (children s), Unlock]
        @ terminate_each terminate (sorted_list_of_fset (children s)),
      final = s\<rparr>"
  by (simp add: terminateAll_def Let_def)

text \<open>\<open>terminateAll\<close> among the other threads: its own events, and what the others did.\<close>

lemma terminateAll_among_eq:
  "terminateAll_among terminate meanwhile s =
     \<lparr>returned = (),
      events = events (terminateAll terminate s),
      final = terminate_each_among meanwhile (sorted_list_of_fset (children s)) s\<rparr>"
  by (simp add: terminateAll_among_def terminateAll_eq Let_def)

lemma terminate_each_among_idle: "terminate_each_among (\<lambda>h s'. s') xs s = s"
  by (induction xs) simp_all

lemma terminate_each_among_foldl:
  "terminate_each_among meanwhile xs s = foldl (\<lambda>s' h. meanwhile h s') s xs"
  by (induction xs arbitrary: s) simp_all

lemma terminate_each_among_keeps:
  assumes "\<And>h s'. x |\<in>| children s' \<Longrightarrow> x |\<in>| children (meanwhile h s')"
    and "x |\<in>| children s"
  shows "x |\<in>| children (terminate_each_among meanwhile xs s)"
  using assms(2) by (induction xs arbitrary: s) (simp_all add: assms(1))

text \<open>
  A notification anywhere in an exit callback, bound ones included, means that the
  collection was empty when the callback was done.
\<close>

lemma notify_all_iff_empty:
  "Notify_all \<in> set (events (wrapExitCallback expired pChild exitCode onExit' s)) \<longleftrightarrow>
      children (final (wrapExitCallback expired pChild exitCode onExit' s)) = {||}"
  "Notify_all \<in> set (events (call_onExit expired g exitCode s)) \<Longrightarrow>
      children (final (call_onExit expired g exitCode s)) = {||}"
proof (induction expired pChild exitCode onExit' s and expired g exitCode s
    rule: wrapExitCallback_call_onExit.induct)
  case (1 expired pChild exitCode onExit' s)
  then show ?case
    by (cases pChild) (auto simp: Let_def split: option.splits)
next
  case (2 expired f exitCode s)
  then show ?case by simp
next
  case (3 expired pChild onExit' exitCode s)
  then show ?case by simp
qed

lemma wrapExitCallback_ends_with_check:
  "\<exists>before.
     events (wrapExitCallback expired pChild exitCode onExit' s) =
       before
       @ [Lock, Check_empty
                  (children (final (wrapExitCallback expired pChild exitCode onExit' s)) = {||})]
       @ (if children (final (wrapExitCallback expired pChild exitCode onExit' s)) = {||}
          then [Notify_all] else [])
       @ [Unlock]"
  by (simp add: Let_def)

lemma wrapExitCallback_expired:
  assumes "expired pChild"
  shows "wrapExitCallback expired (weak_ptr pChild) exitCode onExit' s =
     (let called = (case onExit' of
                      None \<Rightarrow> \<lparr>returned = (), events = [], final = s\<rparr>
                    | Some g \<Rightarrow> call_onExit expired g exitCode s);
          empty = (children (final called) = {||})
      in \<lparr>returned = (),
          events = [Lock, Unlock] @ events called @ [Lock, Check_empty empty]
            @ (if empty then [Notify_all] else []) @ [Unlock],
          final = final called\<rparr>)"
  using assms by (cases onExit') (simp_all add: Let_def)

section \<open>Properties\<close>

subsection \<open>wait\<close>

text \<open>
  C5. If \<open>children_\<close> is empty when \<open>wait\<close> has taken the lock, \<open>wait\<close> returns true at once:
  it makes the one check under the lock and does not wait on \<open>noChildrenSignal_\<close>, with
  or without a maximum duration, and however a wait would have ended.
\<close>

theorem wait_empty_returns_at_once:
  assumes "children s = {||}"
  shows "wait maxWait w s =
           \<lparr>returned = True, events = [Lock, Check_empty True, Unlock], final = s\<rparr>
         \<and> Wait \<notin> set (events (wait maxWait w s))
         \<and> (\<forall>d. Timed_wait d \<notin> set (events (wait maxWait w s)))
         \<and> under_lock (Check_empty True) (events (wait maxWait w s))"
  using assms by (simp add: wait_def under_lock_def)

theorem wait_empty_returns_at_once_witness:
  "children \<lparr>children = {||}\<rparr> = {||}
   \<and> returned (wait (ticks 5) \<lparr>in_time = False, woken = \<lparr>children = {|7|}\<rparr>\<rparr>
         \<lparr>children = {||}\<rparr>) = True
   \<and> returned (wait not_a_date_time \<lparr>in_time = False, woken = \<lparr>children = {|7|}\<rparr>\<rparr>
         \<lparr>children = {||}\<rparr>) = True"
proof -
  have e: "children \<lparr>children = {||}\<rparr> = {||}" by simp
  show ?thesis
    using wait_empty_returns_at_once [OF e, of "ticks 5"]
      wait_empty_returns_at_once [OF e, of not_a_date_time]
    by simp
qed

text \<open>
  C2, as stated, does not hold: \<open>wait\<close> without a maximum duration waits on
  \<open>noChildrenSignal_\<close> once and then returns \<open>children_.empty()\<close>. Child 1 is running and
  a thread waits. The exit of child 1 empties the collection and notifies; a launch on
  another thread inserts child 2 before the waiting thread holds the mutex again. The
  waiting thread finds child 2: \<open>wait\<close> returns false, with a child registered.
\<close>

theorem wait_indefinitely_counterexample:
  "children \<lparr>children = {|1|}\<rparr> \<noteq> {||}
   \<and> is_not_a_date_time not_a_date_time
   \<and> events (wrapExitCallback (\<lambda>h. False) (weak_ptr 1) 0 None \<lparr>children = {|1|}\<rparr>)
       = [Lock, Erase 1, Unlock, Lock, Check_empty True, Notify_all, Unlock]
   \<and> final (wrapExitCallback (\<lambda>h. False) (weak_ptr 1) 0 None \<lparr>children = {|1|}\<rparr>)
       = \<lparr>children = {||}\<rparr>
   \<and> final (runCommand (\<lambda>h c. Success) 2 ''sleep 60'' ()
        \<lparr>onStdout = None, onStderr = None, onExit = None\<rparr> \<lparr>children = {||}\<rparr>)
       = \<lparr>children = {|2|}\<rparr>
   \<and> returned (wait not_a_date_time \<lparr>in_time = True, woken = \<lparr>children = {|2|}\<rparr>\<rparr>
        \<lparr>children = {|1|}\<rparr>) = False
   \<and> children (final (wait not_a_date_time \<lparr>in_time = True, woken = \<lparr>children = {|2|}\<rparr>\<rparr>
        \<lparr>children = {|1|}\<rparr>)) \<noteq> {||}"
  by (simp add: wait_def runCommand_def runChild_def is_error_def)

text \<open>
  C2, amended. A call of \<open>wait\<close> with no maximum duration, made while \<open>children_\<close> is not
  empty, waits on \<open>noChildrenSignal_\<close> and, when that wait has ended, returns the result of
  the check it makes under the lock it holds again: true exactly when the collection is
  empty at that check. So it never returns true while a child is registered.
\<close>

theorem wait_indefinitely_returns_recheck:
  assumes "children s \<noteq> {||}" and "is_not_a_date_time maxWait"
  shows "events (wait maxWait w s) =
           [Lock, Check_empty False, Wait, Check_empty (children (woken w) = {||}), Unlock]
         \<and> final (wait maxWait w s) = woken w
         \<and> returned (wait maxWait w s) = (children (final (wait maxWait w s)) = {||})
         \<and> under_lock (Check_empty (returned (wait maxWait w s))) (events (wait maxWait w s))"
  using assms by (simp add: wait_def under_lock_def)

theorem wait_indefinitely_returns_recheck_witness:
  "children \<lparr>children = {|1|}\<rparr> \<noteq> {||}
   \<and> is_not_a_date_time not_a_date_time
   \<and> returned (wait not_a_date_time \<lparr>in_time = True, woken = \<lparr>children = {||}\<rparr>\<rparr>
        \<lparr>children = {|1|}\<rparr>) = True
   \<and> Wait \<in> set (events (wait not_a_date_time \<lparr>in_time = True, woken = \<lparr>children = {||}\<rparr>\<rparr>
        \<lparr>children = {|1|}\<rparr>))"
proof -
  have n: "children \<lparr>children = {|1|}\<rparr> \<noteq> {||}" by simp
  have i: "is_not_a_date_time not_a_date_time" by simp
  show ?thesis
    using n i
      wait_indefinitely_returns_recheck
        [OF n i, of "\<lparr>in_time = True, woken = \<lparr>children = {||}\<rparr>\<rparr>"]
    by simp
qed

text \<open>
  C3. A call of \<open>wait\<close> with a maximum duration returns true if and only if \<open>children_\<close> was
  found empty, by a check under the lock, within that duration: at the entry of the call,
  or after \<open>timed_wait\<close> returned in time. Whenever it returns true the collection is empty.
  In every other case it returns false; when the duration elapses with a child registered
  it returns false without a further check.
\<close>

theorem wait_timed:
  assumes "\<not> is_not_a_date_time maxWait"
  shows "(returned (wait maxWait w s) \<longleftrightarrow>
            children s = {||} \<or> (in_time w \<and> children (woken w) = {||}))
         \<and> (returned (wait maxWait w s) \<longrightarrow>
              children (final (wait maxWait w s)) = {||}
              \<and> under_lock (Check_empty True) (events (wait maxWait w s)))
         \<and> (children s \<noteq> {||} \<and> \<not> in_time w \<longrightarrow>
              \<not> returned (wait maxWait w s)
              \<and> events (wait maxWait w s) =
                  [Lock, Check_empty False, Timed_wait maxWait, Unlock])"
  using assms by (simp add: wait_def under_lock_def)

theorem wait_timed_witness:
  "\<not> is_not_a_date_time (ticks 5)
   \<and> returned (wait (ticks 5) \<lparr>in_time = True, woken = \<lparr>children = {||}\<rparr>\<rparr>
        \<lparr>children = {|1|}\<rparr>) = True
   \<and> returned (wait (ticks 5) \<lparr>in_time = False, woken = \<lparr>children = {|1|}\<rparr>\<rparr>
        \<lparr>children = {|1|}\<rparr>) = False
   \<and> returned (wait (ticks 5) \<lparr>in_time = True, woken = \<lparr>children = {|1|}\<rparr>\<rparr>
        \<lparr>children = {|1|}\<rparr>) = False"
proof -
  have d: "\<not> is_not_a_date_time (ticks 5)" by simp
  show ?thesis
    using d
      wait_timed [OF d, of "\<lparr>in_time = True, woken = \<lparr>children = {||}\<rparr>\<rparr>"
        "\<lparr>children = {|1|}\<rparr>"]
      wait_timed [OF d, of "\<lparr>in_time = False, woken = \<lparr>children = {|1|}\<rparr>\<rparr>"
        "\<lparr>children = {|1|}\<rparr>"]
      wait_timed [OF d, of "\<lparr>in_time = True, woken = \<lparr>children = {|1|}\<rparr>\<rparr>"
        "\<lparr>children = {|1|}\<rparr>"]
    by simp
qed

subsection \<open>runProgram, runCommand\<close>

text \<open>
  C4. For a launch by \<open>runProgram\<close> or \<open>runCommand\<close>: if \<open>run\<close> of the child fails, the
  launch returns that failure, \<open>children_\<close> is as before and nothing but the call of \<open>run\<close>
  has happened. The handle is inserted only when \<open>run\<close> has returned success, after that
  call and under the lock; the launch then returns success.
\<close>

theorem failed_start_is_not_registered:
  assumes "r = runProgram run pChild executable args options callbacks s
           \<or> r = runCommand run pChild command options' callbacks s"
    and "ourCallbacks =
           callbacks\<lparr>onExit := Some (bind_wrapExitCallback (weak_ptr pChild) (onExit callbacks))\<rparr>"
  shows "(is_error (run pChild ourCallbacks) \<longrightarrow>
            returned r = run pChild ourCallbacks \<and> final r = s
            \<and> events r = [Run pChild ourCallbacks])
         \<and> (\<not> is_error (run pChild ourCallbacks) \<longrightarrow>
              returned r = Success \<and> children (final r) = finsert pChild (children s)
              \<and> under_lock (Insert pChild) (events r))
         \<and> (\<forall>h. Insert h \<in> set (events r) \<longrightarrow>
              h = pChild \<and> \<not> is_error (run pChild ourCallbacks))
         \<and> strictly_before (Run pChild ourCallbacks) (Insert pChild) (events r)"
proof -
  have r: "r = runChild run pChild ourCallbacks s"
    using launch_is_runChild [OF assms(1)] assms(2) by simp
  show ?thesis
  proof (cases "is_error (run pChild ourCallbacks)")
    case True
    then show ?thesis by (simp add: r runChild_failure)
  next
    case False
    then show ?thesis by (simp add: r runChild_success under_lock_def)
  qed
qed

theorem failed_start_is_not_registered_witness:
  "is_error ((\<lambda>h c. Failure 2) (3::nat) (\<lparr>onStdout = None, onStderr = None,
       onExit = Some (bind_wrapExitCallback (weak_ptr 3) None)\<rparr>))
   \<and> returned (runCommand (\<lambda>h c. Failure 2) 3 ''nosuch'' ()
        \<lparr>onStdout = None, onStderr = None, onExit = None\<rparr> \<lparr>children = {|1|}\<rparr>) = Failure 2
   \<and> final (runCommand (\<lambda>h c. Failure 2) 3 ''nosuch'' ()
        \<lparr>onStdout = None, onStderr = None, onExit = None\<rparr> \<lparr>children = {|1|}\<rparr>)
       = \<lparr>children = {|1|}\<rparr>"
  using failed_start_is_not_registered
    [of "runCommand (\<lambda>h c. Failure 2) 3 ''nosuch'' ()
           \<lparr>onStdout = None, onStderr = None, onExit = None\<rparr> \<lparr>children = {|1|}\<rparr>"
        "\<lambda>h c. Failure 2" 3 "[]" "[]" "()" "\<lparr>onStdout = None, onStderr = None, onExit = None\<rparr>"
        "\<lparr>children = {|1|}\<rparr>" "''nosuch''" "()"
        "\<lparr>onStdout = None, onStderr = None,
          onExit = Some (bind_wrapExitCallback (weak_ptr 3) None)\<rparr>"]
  by (simp add: is_error_def)

text \<open>
  C8. For a launch by \<open>runProgram\<close> or \<open>runCommand\<close>, the callbacks handed to \<open>run\<close> of the
  child are the caller's with the \<open>onExit\<close> slot replaced (by \<open>wrapExitCallback\<close> bound to
  the weak pointer and the caller's \<open>onExit\<close>): \<open>onStdout\<close> and \<open>onStderr\<close> are the caller's.
\<close>

theorem only_onExit_is_wrapped:
  assumes "r = runProgram run pChild executable args options callbacks s
           \<or> r = runCommand run pChild command options' callbacks s"
  shows "\<exists>passed.
           hd (events r) = Run pChild passed
         \<and> (\<forall>h c. Run h c \<in> set (events r) \<longrightarrow> h = pChild \<and> c = passed)
         \<and> onStdout passed = onStdout callbacks
         \<and> onStderr passed = onStderr callbacks
         \<and> passed = callbacks\<lparr>onExit := onExit passed\<rparr>
         \<and> onExit passed = Some (bind_wrapExitCallback (weak_ptr pChild) (onExit callbacks))"
proof -
  let ?ours = "callbacks\<lparr>onExit :=
                  Some (bind_wrapExitCallback (weak_ptr pChild) (onExit callbacks))\<rparr>"
  have r: "r = runChild run pChild ?ours s"
    by (rule launch_is_runChild [OF assms])
  have "hd (events r) = Run pChild ?ours
        \<and> (\<forall>h c. Run h c \<in> set (events r) \<longrightarrow> h = pChild \<and> c = ?ours)"
    by (cases "is_error (run pChild ?ours)") (simp_all add: r runChild_failure runChild_success)
  then show ?thesis by (intro exI [of _ ?ours]) auto
qed

theorem only_onExit_is_wrapped_witness:
  "hd (events (runProgram (\<lambda>h c. Success) 4 ''/bin/echo'' [''Hello''] ()
         \<lparr>onStdout = Some (\<lambda>out s. s), onStderr = None,
          onExit = Some (user_function (\<lambda>code s. s))\<rparr> \<lparr>children = {||}\<rparr>))
     = Run 4 \<lparr>onStdout = Some (\<lambda>out s. s), onStderr = None,
         onExit = Some (bind_wrapExitCallback (weak_ptr 4)
                          (Some (user_function (\<lambda>code s. s))))\<rparr>"
proof -
  obtain passed where
    "hd (events (runProgram (\<lambda>h c. Success) 4 ''/bin/echo'' [''Hello''] ()
           \<lparr>onStdout = Some (\<lambda>out s. s), onStderr = None,
            onExit = Some (user_function (\<lambda>code s. s))\<rparr> \<lparr>children = {||}\<rparr>))
       = Run 4 passed"
    and "passed = \<lparr>onStdout = Some (\<lambda>out s. s), onStderr = None,
            onExit = Some (user_function (\<lambda>code s. s))\<rparr>\<lparr>onExit := onExit passed\<rparr>"
    and "onExit passed
           = Some (bind_wrapExitCallback (weak_ptr 4) (Some (user_function (\<lambda>code s. s))))"
    using only_onExit_is_wrapped
      [of "runProgram (\<lambda>h c. Success) 4 ''/bin/echo'' [''Hello''] ()
             \<lparr>onStdout = Some (\<lambda>out s. s), onStderr = None,
              onExit = Some (user_function (\<lambda>code s. s))\<rparr> \<lparr>children = {||}\<rparr>"
          "\<lambda>h c. Success" 4 "''/bin/echo''" "[''Hello'']" "()"
          "\<lparr>onStdout = Some (\<lambda>out s. s), onStderr = None,
            onExit = Some (user_function (\<lambda>code s. s))\<rparr>"
          "\<lparr>children = {||}\<rparr>" "[]" "()"]
    by auto
  then show ?thesis by simp
qed

subsection \<open>terminateAll\<close>

text \<open>
  C6. \<open>terminateAll\<close> copies \<open>children_\<close> under the lock and then, outside the lock, calls
  \<open>terminate\<close> once on each handle of the copy and on no other. A failure of \<open>terminate\<close> is
  logged, and whatever \<open>terminate\<close> returns for one child, every child of the copy gets
  its call; nothing is logged but such failures. \<open>terminateAll\<close> returns nothing.
\<close>

theorem terminateAll_best_effort:
  "under_lock (Copy (children s)) (events (terminateAll terminate s))
   \<and> (\<forall>h. h |\<in>| children s \<longrightarrow>
         outside_lock (Terminate h) (events (terminateAll terminate s))
         \<and> count_list (events (terminateAll terminate s)) (Terminate h) = 1
         \<and> strictly_before (Copy (children s)) (Terminate h) (events (terminateAll terminate s))
         \<and> (is_error (terminate h) \<longrightarrow>
              Log_error (terminate h) \<in> set (events (terminateAll terminate s))))
   \<and> (\<forall>h. Terminate h \<in> set (events (terminateAll terminate s)) \<longrightarrow> h |\<in>| children s)
   \<and> (\<forall>e. Log_error e \<in> set (events (terminateAll terminate s)) \<longrightarrow>
         (\<exists>h. h |\<in>| children s \<and> e = terminate h \<and> is_error e))
   \<and> returned (terminateAll terminate s) = ()"
proof -
  let ?each = "terminate_each terminate (sorted_list_of_fset (children s))"
  have ev: "events (terminateAll terminate s) = [Lock, Copy (children s), Unlock] @ ?each"
    by (simp add: terminateAll_eq)
  have copy: "under_lock (Copy (children s)) ([Lock, Copy (children s), Unlock] @ ?each)"
    by (simp add: under_lock_def when_held_absent set_terminate_each image_iff)
  have mem: "Terminate h \<in> set ?each \<longleftrightarrow> h |\<in>| children s" for h
    by (auto simp: set_terminate_each)
  have out: "outside_lock (Terminate h) ([Lock, Copy (children s), Unlock] @ ?each)"
    if "h |\<in>| children s" for h
    using that when_held_terminate_each [of False "Terminate h" terminate] mem [of h]
    by (simp add: outside_lock_def)
  have cnt: "count_list ([Lock, Copy (children s), Unlock] @ ?each) (Terminate h) = 1"
    if "h |\<in>| children s" for h
    using that by (simp add: count_terminate_each count_sorted_list_of_fset)
  have log: "Log_error e \<in> set ?each \<longleftrightarrow>
               (\<exists>h. h |\<in>| children s \<and> e = terminate h \<and> is_error e)" for e
    by (auto simp: set_terminate_each)
  show ?thesis
    unfolding ev using copy out cnt log mem by auto
qed

theorem terminateAll_best_effort_witness:
  "2 |\<in>| children \<lparr>children = {|1, 2|}\<rparr>
   \<and> is_error ((\<lambda>h. if h = 1 then Failure 9 else Success) (1::nat))
   \<and> outside_lock (Terminate 2)
        (events (terminateAll (\<lambda>h. if h = 1 then Failure 9 else Success)
           \<lparr>children = {|1, 2|}\<rparr>))
   \<and> Log_error (Failure 9)
        \<in> set (events (terminateAll (\<lambda>h. if h = 1 then Failure 9 else Success)
             \<lparr>children = {|1, 2|}\<rparr>))"
  using terminateAll_best_effort
    [of "\<lparr>children = {|1, 2|}\<rparr>" "\<lambda>h. if h = 1 then Failure 9 else Success"]
  by (auto simp: is_error_def)

text \<open>
  C10, as stated, does not hold: a handle registered before \<open>terminateAll\<close> need not be
  registered when it returns. Child 1 is registered. \<open>terminateAll\<close> copies the collection,
  releases the mutex and calls \<open>terminate\<close> on child 1; the child exits, and a thread of the
  dispatcher runs \<open>wrapExitCallback\<close> for it, which takes the free mutex and erases the
  handle, before \<open>terminateAll\<close> returns.
\<close>

theorem terminateAll_reaped_meanwhile_counterexample:
  "1 |\<in>| children \<lparr>children = {|1|}\<rparr>
   \<and> events (terminateAll_among (\<lambda>h. Success)
        (\<lambda>h s. final (wrapExitCallback (\<lambda>h. False) (weak_ptr h) 0 None s))
        \<lparr>children = {|1|}\<rparr>)
       = [Lock, Copy {|1|}, Unlock, Terminate 1]
   \<and> 1 |\<notin>| children (final (terminateAll_among (\<lambda>h. Success)
        (\<lambda>h s. final (wrapExitCallback (\<lambda>h. False) (weak_ptr h) 0 None s))
        \<lparr>children = {|1|}\<rparr>))"
  by (simp add: terminateAll_among_def sorted_list_of_fset.rep_eq is_error_def)

text \<open>
  C10, amended. \<open>terminateAll\<close> itself never mutates \<open>children_\<close>: it neither erases nor
  inserts a handle and it notifies no waiter, so the collection it leaves behind is what
  the other threads made of it while its loop ran. A handle registered before the call
  that no other thread removes meanwhile is still registered when the call returns, and
  with the other threads idle the collection is the same as before. Nor does \<open>runChild\<close>,
  \<open>hasRunningChildren\<close> or \<open>wait\<close> erase a handle: that is left to \<open>wrapExitCallback\<close>.
\<close>

theorem terminateAll_erases_nothing:
  "events (terminateAll_among terminate meanwhile s) = events (terminateAll terminate s)
   \<and> Notify_all \<notin> set (events (terminateAll terminate s))
   \<and> (\<forall>h. Erase h \<notin> set (events (terminateAll terminate s))
          \<and> Insert h \<notin> set (events (terminateAll terminate s)))
   \<and> final (terminateAll_among terminate meanwhile s)
       = foldl (\<lambda>s' h. meanwhile h s') s (sorted_list_of_fset (children s))
   \<and> ((\<forall>h s'. x |\<in>| children s' \<longrightarrow> x |\<in>| children (meanwhile h s')) \<longrightarrow>
        x |\<in>| children s \<longrightarrow>
        x |\<in>| children (final (terminateAll_among terminate meanwhile s)))
   \<and> terminateAll_among terminate (\<lambda>h s'. s') s = terminateAll terminate s
   \<and> children (final (terminateAll terminate s)) = children s
   \<and> (\<forall>h. Erase h \<notin> set (events (runChild run pChild callbacks s))
          \<and> Erase h \<notin> set (events (hasRunningChildren s))
          \<and> Erase h \<notin> set (events (wait maxWait w s)))"
proof -
  have own: "Notify_all \<notin> set (events (terminateAll terminate s))
             \<and> (\<forall>h. Erase h \<notin> set (events (terminateAll terminate s))
                    \<and> Insert h \<notin> set (events (terminateAll terminate s)))"
    by (auto simp: terminateAll_eq set_terminate_each)
  have fin: "final (terminateAll_among terminate meanwhile s)
               = foldl (\<lambda>s' h. meanwhile h s') s (sorted_list_of_fset (children s))"
    by (simp add: terminateAll_among_eq terminate_each_among_foldl)
  have keeps: "x |\<in>| children (final (terminateAll_among terminate meanwhile s))"
    if "\<forall>h s'. x |\<in>| children s' \<longrightarrow> x |\<in>| children (meanwhile h s')" "x |\<in>| children s"
    using that by (simp add: terminateAll_among_eq terminate_each_among_keeps)
  have idle: "terminateAll_among terminate (\<lambda>h s'. s') s = terminateAll terminate s"
    by (simp add: terminateAll_among_eq terminate_each_among_idle terminateAll_eq)
  have others: "\<forall>h. Erase h \<notin> set (events (runChild run pChild callbacks s))
          \<and> Erase h \<notin> set (events (hasRunningChildren s))
          \<and> Erase h \<notin> set (events (wait maxWait w s))"
    by (auto simp: runChild_def hasRunningChildren_def wait_def Let_def)
  have ev: "events (terminateAll_among terminate meanwhile s) = events (terminateAll terminate s)"
    by (simp add: terminateAll_among_eq)
  have same: "children (final (terminateAll terminate s)) = children s"
    by (simp add: terminateAll_eq)
  show ?thesis
    using ev own fin keeps idle same others by blast
qed

theorem terminateAll_erases_nothing_witness:
  "2 |\<in>| children \<lparr>children = {|1, 2|}\<rparr>
   \<and> 2 |\<in>| children (final (terminateAll_among (\<lambda>h. Success)
        (\<lambda>h s. if h = 1 then final (wrapExitCallback (\<lambda>h. False) (weak_ptr 1) 0 None s) else s)
        \<lparr>children = {|1, 2|}\<rparr>))
   \<and> Notify_all \<notin> set (events (terminateAll (\<lambda>h. Success) \<lparr>children = {|1, 2|}\<rparr>))"
proof -
  let ?reap = "\<lambda>h s. if h = (1::nat)
                 then final (wrapExitCallback (\<lambda>h. False) (weak_ptr 1) 0 None s) else s"
  have keep: "\<forall>h s'. 2 |\<in>| children s' \<longrightarrow> 2 |\<in>| children (?reap h s')"
    by (simp add: Let_def)
  have before: "2 |\<in>| children \<lparr>children = {|1, 2|}\<rparr>"
    by simp
  show ?thesis
    using keep before
      terminateAll_erases_nothing
        [of "\<lambda>h. Success" ?reap "\<lparr>children = {|1, 2|}\<rparr>" 2]
    by blast
qed

subsection \<open>wrapExitCallback\<close>

text \<open>
  C1. The exit of a launched child, whose object is alive while the collection or the
  launch holds it, reaches \<open>wrapExitCallback\<close> through the bound callback the child was
  given. With the caller's \<open>onExit\<close>: the handle is erased under the lock strictly before
  \<open>onExit\<close> is called; \<open>onExit\<close> is called once, outside the lock, on a collection that does
  not hold the handle; \<open>noChildrenSignal_\<close> is notified, if at all, strictly after \<open>onExit\<close>
  has returned, on what \<open>onExit\<close> left of the collection.
\<close>

theorem exit_erase_then_onExit_then_notify:
  assumes "\<not> expired pChild"
    and "r = wrapExitCallback expired (weak_ptr pChild) exitCode (Some (user_function f)) s"
    and "erased = s\<lparr>children := children s |-| {|pChild|}\<rparr>"
  shows "events r =
           [Lock, Erase pChild, Unlock, Call_onExit exitCode,
            Lock, Check_empty (children (f exitCode erased) = {||})]
           @ (if children (f exitCode erased) = {||} then [Notify_all] else []) @ [Unlock]
         \<and> under_lock (Erase pChild) (events r)
         \<and> outside_lock (Call_onExit exitCode) (events r)
         \<and> count_list (events r) (Call_onExit exitCode) = 1
         \<and> strictly_before (Erase pChild) (Call_onExit exitCode) (events r)
         \<and> strictly_before (Call_onExit exitCode) Notify_all (events r)
         \<and> pChild |\<notin>| children erased
         \<and> final r = f exitCode erased
         \<and> call_onExit expired
               (bind_wrapExitCallback (weak_ptr pChild) (Some (user_function f))) exitCode s = r"
  using assms by (simp add: Let_def under_lock_def outside_lock_def)

theorem exit_erase_then_onExit_then_notify_witness:
  "\<not> (\<lambda>h. False) (1::nat)
   \<and> events (wrapExitCallback (\<lambda>h. False) (weak_ptr 1) 0 (Some (user_function (\<lambda>code s. s)))
        \<lparr>children = {|1|}\<rparr>)
       = [Lock, Erase 1, Unlock, Call_onExit 0, Lock, Check_empty True, Notify_all, Unlock]
   \<and> strictly_before (Erase 1) (Call_onExit 0)
        (events (wrapExitCallback (\<lambda>h. False) (weak_ptr 1) 0
           (Some (user_function (\<lambda>code s. s))) \<lparr>children = {|1|}\<rparr>))
   \<and> strictly_before (Call_onExit 0) Notify_all
        (events (wrapExitCallback (\<lambda>h. False) (weak_ptr 1) 0
           (Some (user_function (\<lambda>code s. s))) \<lparr>children = {|1|}\<rparr>))"
  using exit_erase_then_onExit_then_notify
    [of "\<lambda>h. False" 1 _ 0 "\<lambda>code s. s" "\<lparr>children = {|1|}\<rparr>", OF _ refl refl]
  by simp

text \<open>
  C7. \<open>wrapExitCallback\<close> notifies \<open>noChildrenSignal_\<close> if and only if \<open>children_\<close> is empty
  at the check it makes last, after the callback: the check, the notification when the
  check found the collection empty, and the release of the mutex end its events. No other
  member function notifies.
\<close>

theorem notify_only_when_found_empty:
  "(Notify_all \<in> set (events (wrapExitCallback expired pChild exitCode onExit' s)) \<longleftrightarrow>
      children (final (wrapExitCallback expired pChild exitCode onExit' s)) = {||})
   \<and> (\<exists>before.
        events (wrapExitCallback expired pChild exitCode onExit' s) =
          before
          @ [Lock, Check_empty
               (children (final (wrapExitCallback expired pChild exitCode onExit' s)) = {||})]
          @ (if children (final (wrapExitCallback expired pChild exitCode onExit' s)) = {||}
             then [Notify_all] else [])
          @ [Unlock])
   \<and> Notify_all \<notin> set (events (runChild run h callbacks s))
   \<and> Notify_all \<notin> set (events (runProgram run h executable args options callbacks s))
   \<and> Notify_all \<notin> set (events (runCommand run h command options' callbacks s))
   \<and> Notify_all \<notin> set (events (hasRunningChildren s))
   \<and> Notify_all \<notin> set (events (terminateAll terminate s))
   \<and> Notify_all \<notin> set (events (wait maxWait w s))"
proof -
  have "Notify_all \<notin> set (events (runChild run' h' callbacks' s'))" for run' h' callbacks' s'
    by (simp add: runChild_def Let_def)
  moreover have "Notify_all \<notin> set (events (terminateAll terminate s))"
    by (auto simp: terminateAll_eq set_terminate_each)
  moreover have "Notify_all \<notin> set (events (wait maxWait w s))"
    by (simp add: wait_def)
  ultimately show ?thesis
    using notify_all_iff_empty(1) [of expired pChild exitCode onExit' s]
      wrapExitCallback_ends_with_check [of expired pChild exitCode onExit' s]
    by (simp add: runProgram_def runCommand_def hasRunningChildren_def Let_def)
qed

theorem notify_only_when_found_empty_witness:
  "Notify_all \<in> set (events (wrapExitCallback (\<lambda>h. False) (weak_ptr 1) 0 None
       \<lparr>children = {|1|}\<rparr>))
   \<and> Notify_all \<notin> set (events (wrapExitCallback (\<lambda>h. False) (weak_ptr 1) 0 None
       \<lparr>children = {|1, 2|}\<rparr>))"
  using notify_only_when_found_empty
      [of "\<lambda>h. False" "weak_ptr 1" 0 None "\<lparr>children = {|1|}\<rparr>"]
    notify_only_when_found_empty
      [of "\<lambda>h. False" "weak_ptr 1" 0 None "\<lparr>children = {|1, 2|}\<rparr>"]
  by simp

text \<open>
  C9. If \<open>lock()\<close> on the weak pointer yields null, \<open>wrapExitCallback\<close> erases nothing: the
  first block under the lock leaves \<open>children_\<close> as it was. The callback, when there is one,
  is still called, on that unchanged collection, and the check of emptiness with its
  notification still follows.
\<close>

theorem expired_child_is_not_erased:
  assumes "expired pChild"
    and "r = wrapExitCallback expired (weak_ptr pChild) exitCode onExit' s"
    and "called = (case onExit' of
                     None \<Rightarrow> \<lparr>returned = (), events = [], final = s\<rparr>
                   | Some g \<Rightarrow> call_onExit expired g exitCode s)"
  shows "lock expired (weak_ptr pChild) = None
         \<and> events r =
             [Lock, Unlock] @ events called
             @ [Lock, Check_empty (children (final called) = {||})]
             @ (if children (final called) = {||} then [Notify_all] else []) @ [Unlock]
         \<and> final r = final called
         \<and> (onExit' = None \<longrightarrow> final r = s \<and> (\<forall>h. Erase h \<notin> set (events r)))
         \<and> (\<forall>f. onExit' = Some (user_function f) \<longrightarrow>
               final r = f exitCode s
               \<and> outside_lock (Call_onExit exitCode) (events r)
               \<and> (\<forall>h. Erase h \<notin> set (events r)))"
proof -
  have r: "r = \<lparr>returned = (),
                events = [Lock, Unlock] @ events called
                  @ [Lock, Check_empty (children (final called) = {||})]
                  @ (if children (final called) = {||} then [Notify_all] else []) @ [Unlock],
                final = final called\<rparr>"
    using assms
    by (simp del: wrapExitCallback.simps add: wrapExitCallback_expired Let_def)
  have l: "lock expired (weak_ptr pChild) = None"
    using assms(1) by simp
  have e: "events r =
             [Lock, Unlock] @ events called
             @ [Lock, Check_empty (children (final called) = {||})]
             @ (if children (final called) = {||} then [Notify_all] else []) @ [Unlock]"
    by (simp add: r)
  have f: "final r = final called"
    by (simp add: r)
  have n: "final r = s \<and> (\<forall>h. Erase h \<notin> set (events r))" if "onExit' = None"
    using that assms(3) by (simp add: r)
  have u: "final r = f exitCode s \<and> outside_lock (Call_onExit exitCode) (events r)
           \<and> (\<forall>h. Erase h \<notin> set (events r))"
    if "onExit' = Some (user_function f)" for f
    using that assms(3) by (simp add: r outside_lock_def)
  show ?thesis
    using l e f n u by blast
qed

theorem expired_child_is_not_erased_witness:
  "(\<lambda>h. True) (1::nat)
   \<and> events (wrapExitCallback (\<lambda>h. True) (weak_ptr 1) 0 (Some (user_function (\<lambda>code s. s)))
        \<lparr>children = {|1|}\<rparr>)
       = [Lock, Unlock, Call_onExit 0, Lock, Check_empty False, Unlock]
   \<and> final (wrapExitCallback (\<lambda>h. True) (weak_ptr 1) 0 (Some (user_function (\<lambda>code s. s)))
        \<lparr>children = {|1|}\<rparr>) = \<lparr>children = {|1|}\<rparr>"
  using expired_child_is_not_erased
    [of "\<lambda>h. True" 1 _ 0 "Some (user_function (\<lambda>code s. s))" "\<lparr>children = {|1|}\<rparr>",
     OF _ refl refl]
  by simp

end
